theory Spec2Isabelle
  imports Main
begin

section \<open>Data model of the communication store\<close>

text \<open>
  The store of the messenger module (class \<open>CommunicationStore\<close>) and the conversation
  model (class \<open>Conversation\<close>) are embedded as records with explicit state passing.
  JavaScript objects are shared by reference; the model copies values. Nothing proved
  below depends on two places of the store holding the same object.

  An identifier of a message is a JavaScript value: a number assigned by the server, or
  the string \<open>String(Date.now())\<close> of a message that is still being sent. Strict
  equality \<open>===\<close> never identifies a number with a string, which is the equality of
  this datatype.
\<close>

datatype ident = NumId int | StrId string

datatype error = TypeError

record message =
  msg_id :: ident
  msg_body :: string
  msg_conversation :: "int option"
  msg_conversationId :: "int option"
  msg_messengerUser :: "nat option"
  msg_date :: nat
  msg_unread :: bool
  msg_isSendingMessage :: bool

record conversationSettings =
  notification :: bool

record conversationStatus =
  online :: bool
  typing :: bool
  lastVisit :: string

record conversation =
  conv_id :: int
  messages :: "message list"
  conv_type :: string
  status :: "conversationStatus option"
  settings :: "conversationSettings option"
  allMessagesFetched :: bool

record conversationInfo =
  info_id :: int
  info_name :: string
  info_type :: string
  unreadCount :: int

record messengerInfo =
  mi_conversations :: "conversationInfo list"
  groups :: "conversationInfo list"
  messengerUser :: nat

record sendOptions =
  opt_conversationId :: int
  opt_body :: string
  opt_channelSetId :: string
  opt_replyToId :: "ident option"

text \<open>
  Calls that leave the store: the requests made on the socket, the reload of the roster
  and the sound cue. The store's field \<open>issued\<close> logs them in the order they are made.
\<close>

datatype call =
    SendMessage sendOptions
  | DeleteMessage ident
  | UpdateMessagesReadStatus "ident list"
  | GetConversation int string int
  | LoadMessengerInfo
  | PlayMsgSent

record store =
  conversations :: "int \<rightharpoonup> conversation"
  messengerInfo :: "messengerInfo option"
  isLoading :: bool
  selectedConversationId :: "int option"
  selectedMessages :: "message list"
  messageForReply :: "message option"
  messageForEdit :: "message option"
  issued :: "call list"

definition issue :: "call \<Rightarrow> store \<Rightarrow> store" where
  "issue c s = s\<lparr>issued := issued s @ [c]\<rparr>"

definition MSGS_REQUEST_LIMIT :: int where
  "MSGS_REQUEST_LIMIT = 30"

text \<open>
  A conversation id passed to an operation is a number, \<open>null\<close> or \<open>undefined\<close>
  (\<open>None\<close>). The test \<open>!id\<close> holds of \<open>None\<close> and of the number 0.
\<close>

text \<open>\<open>String(n)\<close> of a non-negative integer: its decimal digits.\<close>

definition digit_char :: "nat \<Rightarrow> char" where
  "digit_char d = ''0123456789'' ! d"

fun string_of_nat :: "nat \<Rightarrow> string" where
  "string_of_nat n =
     (if n < 10 then [digit_char n]
      else string_of_nat (n div 10) @ [digit_char (n mod 10)])"

declare string_of_nat.simps [simp del]

section \<open>Deleting a message\<close>

text \<open>
  \<open>CommunicationStore.deleteMessage\<close>, after the socket has been obtained: the three
  clearings, then the call on the socket.
\<close>

definition has_id :: "ident \<Rightarrow> message option \<Rightarrow> bool" where
  "has_id i mo = (case mo of None \<Rightarrow> False | Some m \<Rightarrow> msg_id m = i)"

definition deleteMessage :: "store \<Rightarrow> ident \<Rightarrow> store" where
  "deleteMessage s messageId =
     (let s1 = (if has_id messageId (messageForEdit s)
                then s\<lparr>messageForEdit := None\<rparr> else s);
          s2 = (if has_id messageId (messageForReply s1)
                then s1\<lparr>messageForReply := None\<rparr> else s1);
          s3 = (if find (\<lambda>m. msg_id m = messageId) (selectedMessages s2) \<noteq> None
                then s2\<lparr>selectedMessages :=
                          filter (\<lambda>m. msg_id m \<noteq> messageId) (selectedMessages s2)\<rparr>
                else s2)
      in issue (DeleteMessage messageId) s3)"

section \<open>The roster\<close>

text \<open>
  Modelled from the spec: \<open>MessengerInfo.byId\<close> and \<open>MessengerInfo.getConversationType\<close>
  are methods of the roster class, which is not among the sources. The roster holds the
  summaries of the conversations and of the groups; \<open>byId\<close> is the entry with the given
  id, if there is one, and the type of a conversation is the type of its entry (the
  empty string, the default of class \<open>Conversation\<close>, when there is none).
  \<open>update_byId\<close> is an assignment to a field of the entry that \<open>byId\<close> returns.
\<close>

definition byId :: "messengerInfo \<Rightarrow> int \<Rightarrow> conversationInfo option" where
  "byId mi i = find (\<lambda>e. info_id e = i) (mi_conversations mi @ groups mi)"

definition getConversationType :: "messengerInfo \<Rightarrow> int \<Rightarrow> string" where
  "getConversationType mi i = (case byId mi i of None \<Rightarrow> [] | Some e \<Rightarrow> info_type e)"

fun update_first :: "('a \<Rightarrow> bool) \<Rightarrow> ('a \<Rightarrow> 'a) \<Rightarrow> 'a list \<Rightarrow> 'a list" where
  "update_first P f [] = []"
| "update_first P f (x # xs) = (if P x then f x # xs else x # update_first P f xs)"

definition update_byId ::
  "messengerInfo \<Rightarrow> int \<Rightarrow> (conversationInfo \<Rightarrow> conversationInfo) \<Rightarrow> messengerInfo" where
  "update_byId mi i f =
     (if find (\<lambda>e. info_id e = i) (mi_conversations mi) \<noteq> None
      then mi\<lparr>mi_conversations := update_first (\<lambda>e. info_id e = i) f (mi_conversations mi)\<rparr>
      else mi\<lparr>groups := update_first (\<lambda>e. info_id e = i) f (groups mi)\<rparr>)"

section \<open>The conversation model\<close>

text \<open>\<open>Array.prototype.findIndex\<close>: the first index whose element satisfies the test, or -1.\<close>

fun findIndex :: "('a \<Rightarrow> bool) \<Rightarrow> 'a list \<Rightarrow> int" where
  "findIndex P [] = - 1"
| "findIndex P (x # xs) =
     (if P x then 0
      else (let r = findIndex P xs in if r = - 1 then - 1 else r + 1))"

definition getUnreadIds :: "conversation \<Rightarrow> ident list" where
  "getUnreadIds c = map msg_id (filter msg_unread (messages c))"

text \<open>
  \<open>Conversation.updateMessage\<close>. The argument is taken to be a \<open>Message\<close> already (class
  \<open>Message\<close> is not among the sources). Reading \<open>message.conversation.id\<close> of a message
  without a \<open>conversation\<close> throws.
\<close>

definition Conversation_updateMessage :: "conversation \<Rightarrow> message \<Rightarrow> error + conversation" where
  "Conversation_updateMessage c m =
     (case msg_conversation m of
        None \<Rightarrow> Inl TypeError
      | Some k \<Rightarrow>
          if k \<noteq> conv_id c then Inr c
          else (let existedIdx = findIndex (\<lambda>x. msg_id x = msg_id m) (messages c)
                in if existedIdx \<noteq> - 1
                   then Inr (c\<lparr>messages := (messages c)[nat existedIdx := m]\<rparr>)
                   else Inr (c\<lparr>messages := messages c @ [m]\<rparr>)))"

section \<open>Operations of the store\<close>

text \<open>
  An operation returns \<open>Inr\<close> of the store it leaves, or \<open>Inl\<close> of the exception it throws
  (for an \<open>async\<close> method: the rejection of the promise it returns). Each \<open>async\<close> method
  is modelled from the point where its socket has been obtained.
\<close>

definition selectedConversation :: "store \<Rightarrow> conversation option" where
  "selectedConversation s =
     (case selectedConversationId s of None \<Rightarrow> None | Some k \<Rightarrow> conversations s k)"

text \<open>
  \<open>loadConversation\<close>, the request: the type is read from the roster and the call is made
  on the socket. What \<open>apiHelper\<close> (not among the sources) does around the call is left out.
\<close>

definition loadConversation :: "store \<Rightarrow> int \<Rightarrow> int \<Rightarrow> error + store" where
  "loadConversation s i limit =
     (case messengerInfo s of
        None \<Rightarrow> Inl TypeError
      | Some mi \<Rightarrow> Inr (issue (GetConversation i (getConversationType mi i) limit) s))"

text \<open>
  \<open>loadConversation\<close>, the success callback, on the data the socket returned and the
  settings fetched for the conversation. The constructor of \<open>Conversation\<close> takes the
  messages (none when the data has no list), clears \<open>typing\<close> in the status, and copies
  the data; the callback then sets the flag on the conversation it has built
  (\<open>loadConversation_built\<close>). Its next statement calls
  \<open>conversation.setConversationSettings(settings)\<close>. Class \<open>Conversation\<close> defines the
  members listed in \<open>Conversation_members\<close> and no other, and the data of the socket
  brings no function, so the call is a call of \<open>undefined\<close>: it throws, and the merge into
  the map, which is the statement after it, is not reached.
\<close>

record conversationData =
  d_id :: int
  d_messages :: "message list option"
  d_type :: string
  d_status :: "conversationStatus option"

definition new_Conversation :: "conversationData \<Rightarrow> conversation" where
  "new_Conversation d =
     \<lparr>conv_id = d_id d,
      messages = (case d_messages d of None \<Rightarrow> [] | Some ms \<Rightarrow> ms),
      conv_type = d_type d,
      status = map_option (\<lambda>st. st\<lparr>typing := False\<rparr>) (d_status d),
      settings = None,
      allMessagesFetched = False\<rparr>"

definition Conversation_members :: "string list" where
  "Conversation_members =
     [''isGroup'', ''updateMessage'', ''updateStatus'', ''updateTypingStatusLazily'',
      ''getUnreadIds'', ''setReadStatus'']"

definition loadConversation_built :: "conversationData \<Rightarrow> int \<Rightarrow> conversation" where
  "loadConversation_built d limit =
     (let c0 = new_Conversation d
      in c0\<lparr>allMessagesFetched := int (length (messages c0)) < limit\<rparr>)"

definition loadConversation_success ::
  "store \<Rightarrow> int \<Rightarrow> int \<Rightarrow> conversationData \<Rightarrow> conversationSettings
     \<Rightarrow> error + store \<times> conversation" where
  "loadConversation_success s i limit d st =
     (let c1 = loadConversation_built d limit
      in if \<not> List.member Conversation_members ''setConversationSettings''
         then Inl TypeError
         else (let c2 = c1\<lparr>settings := Some st\<rparr>
               in Inr (s\<lparr>conversations := (conversations s)(i \<mapsto> c2)\<rparr>, c2)))"

definition loadOlderMessages :: "store \<Rightarrow> int \<Rightarrow> error + store" where
  "loadOlderMessages s i =
     (case conversations s i of
        None \<Rightarrow> Inr s
      | Some c \<Rightarrow>
          if allMessagesFetched c \<or> isLoading s then Inr s
          else loadConversation s i (int (length (messages c)) + MSGS_REQUEST_LIMIT))"

fun markConversationAsRead :: "store \<Rightarrow> int option \<Rightarrow> error + store" where
  "markConversationAsRead s None = Inr s"
| "markConversationAsRead s (Some i) =
     (if i = 0 then Inr s
      else case conversations s i of
        None \<Rightarrow> Inl TypeError
      | Some c \<Rightarrow>
          (let unreadIds = getUnreadIds c;
               s1 = s\<lparr>conversations := (conversations s)
                      (i \<mapsto> c\<lparr>messages := map (\<lambda>m. m\<lparr>msg_unread := False\<rparr>) (messages c)\<rparr>)\<rparr>;
               s2 = (case messengerInfo s1 of
                       None \<Rightarrow> s1
                     | Some mi \<Rightarrow>
                         s1\<lparr>messengerInfo :=
                              Some (update_byId mi i (\<lambda>e. e\<lparr>unreadCount := 0\<rparr>))\<rparr>)
           in Inr (if unreadIds \<noteq> [] then issue (UpdateMessagesReadStatus unreadIds) s2
                   else s2)))"

text \<open>
  \<open>CommunicationStore.updateMessage\<close>: the conversation is updated if it is loaded, then
  the roster entry; a message of a conversation the roster does not know reloads the
  roster.
\<close>

definition updateMessage_info :: "store \<Rightarrow> int \<Rightarrow> message \<Rightarrow> error + store" where
  "updateMessage_info s k m =
     (case messengerInfo s of
        None \<Rightarrow> Inl TypeError
      | Some mi \<Rightarrow>
          (case byId mi k of
             None \<Rightarrow> Inr (issue LoadMessengerInfo s)
           | Some info \<Rightarrow>
               if msg_unread m
               then Inr (s\<lparr>messengerInfo :=
                           Some (update_byId mi k (\<lambda>e. e\<lparr>unreadCount := unreadCount e + 1\<rparr>))\<rparr>)
               else Inr s))"

definition updateMessage :: "store \<Rightarrow> message \<Rightarrow> error + store" where
  "updateMessage s m =
     (case msg_conversation m of
        None \<Rightarrow> Inl TypeError
      | Some k \<Rightarrow>
          (case conversations s k of
             None \<Rightarrow> updateMessage_info s k m
           | Some c \<Rightarrow>
               (case Conversation_updateMessage c m of
                  Inl e \<Rightarrow> Inl e
                | Inr c' \<Rightarrow>
                    updateMessage_info (s\<lparr>conversations := (conversations s)(k \<mapsto> c')\<rparr>) k m)))"

text \<open>
  \<open>addSendingMessage\<close> and \<open>sendMessage\<close>. \<open>now\<close> is the value of \<open>Date.now()\<close>. The
  temporary message goes to \<open>this.selectedConversation\<close>; reading \<open>messengerUser\<close> of a
  roster that is not there, or \<open>messages\<close> of a selected conversation that is not loaded,
  throws.
\<close>

definition sendingMessage :: "store \<Rightarrow> messengerInfo \<Rightarrow> string \<Rightarrow> nat \<Rightarrow> message" where
  "sendingMessage s mi body now =
     \<lparr>msg_id = StrId (string_of_nat now),
      msg_body = body,
      msg_conversation = None,
      msg_conversationId = selectedConversationId s,
      msg_messengerUser = Some (messengerUser mi),
      msg_date = now,
      msg_unread = False,
      msg_isSendingMessage = True\<rparr>"

definition addSendingMessage :: "store \<Rightarrow> string \<Rightarrow> nat \<Rightarrow> error + store" where
  "addSendingMessage s body now =
     (case messengerInfo s of
        None \<Rightarrow> Inl TypeError
      | Some mi \<Rightarrow>
          (case selectedConversationId s of
             None \<Rightarrow> Inl TypeError
           | Some k \<Rightarrow>
               (case conversations s k of
                  None \<Rightarrow> Inl TypeError
                | Some c \<Rightarrow>
                    Inr (s\<lparr>conversations := (conversations s)
                           (k \<mapsto> c\<lparr>messages := messages c @ [sendingMessage s mi body now]\<rparr>)\<rparr>))))"

definition notifies :: "conversation \<Rightarrow> bool" where
  "notifies c = (case settings c of None \<Rightarrow> False | Some st \<Rightarrow> notification st)"

definition sendMessage :: "store \<Rightarrow> int \<Rightarrow> string \<Rightarrow> string \<Rightarrow> nat \<Rightarrow> error + store" where
  "sendMessage s conversationId body channelSetId now =
     (case addSendingMessage s body now of
        Inl e \<Rightarrow> Inl e
      | Inr s1 \<Rightarrow>
          (let options = \<lparr>opt_conversationId = conversationId, opt_body = body,
                          opt_channelSetId = channelSetId,
                          opt_replyToId = map_option msg_id (messageForReply s1)\<rparr>;
               s2 = s1\<lparr>messageForReply := None\<rparr>
           in case selectedConversation s2 of
                None \<Rightarrow> Inl TypeError
              | Some c \<Rightarrow>
                  Inr (issue (SendMessage options)
                        (if notifies c then issue PlayMsgSent s2 else s2))))"

text \<open>
  \<open>setSelectedConversationId\<close>: the store it leaves, and the rejection of its promise if
  any. The selection is written first. A conversation that is not loaded is requested
  (what follows the response is not part of this step); a loaded one is marked read.
\<close>

fun setSelectedConversationId :: "store \<Rightarrow> int option \<Rightarrow> store \<times> error option" where
  "setSelectedConversationId s None = (s\<lparr>selectedConversationId := None\<rparr>, None)"
| "setSelectedConversationId s (Some i) =
     (let s1 = s\<lparr>selectedConversationId := Some i\<rparr>
      in if i = 0 then (s1, None)
         else (case (case conversations s1 i of
                       None \<Rightarrow> loadConversation s1 i MSGS_REQUEST_LIMIT
                     | Some c \<Rightarrow> markConversationAsRead s1 (Some i)) of
                 Inl e \<Rightarrow> (s1, Some e)
               | Inr s2 \<Rightarrow> (s2, None)))"

text \<open>
  \<open>deleteGroup\<close>, the success callback. The promise of \<open>setSelectedConversationId\<close> is not
  awaited, so its rejection does not stop the callback. The roster entries are the ones
  the callback read at its start, as \<open>setSelectedConversationId\<close> left them.
\<close>

definition newIndex_of :: "int \<Rightarrow> nat \<Rightarrow> int" where
  "newIndex_of delGroupIndex len =
     (if len > 1
      then (if delGroupIndex > 0 then delGroupIndex - 1 else delGroupIndex + 1)
      else - 1)"

definition deleteGroup_success :: "store \<Rightarrow> int \<Rightarrow> error + store" where
  "deleteGroup_success s groupId =
     (case messengerInfo s of
        None \<Rightarrow> Inl TypeError
      | Some mi \<Rightarrow>
          (let gs = groups mi;
               delGroupIndex = findIndex (\<lambda>g. info_id g = groupId) gs;
               newIndex = newIndex_of delGroupIndex (length gs)
           in if newIndex \<noteq> - 1 \<and> \<not> (0 \<le> newIndex \<and> nat newIndex < length gs)
              then Inl TypeError
              else (let s1 = fst (setSelectedConversationId s
                                   (if newIndex \<noteq> - 1
                                    then Some (info_id (gs ! nat newIndex)) else None))
                    in Inr (s1\<lparr>messengerInfo :=
                              map_option
                                (\<lambda>m. m\<lparr>groups := filter (\<lambda>g. info_id g \<noteq> groupId) (groups m)\<rparr>)
                                (messengerInfo s1)\<rparr>))))"

section \<open>Typing status\<close>

subsection \<open>Outbound: the throttled \<open>updateTypingStatus\<close>\<close>

text \<open>
  The constructor of the store replaces \<open>updateTypingStatus\<close> by
  \<open>throttle(this.updateTypingStatus, 5000)\<close>: one wrapper for the store, whatever the
  conversation of a call. The wrapped method obtains the socket and calls
  \<open>socket.updateTypingStatus(conversationId)\<close>.

  Modelled from the lodash documentation: lodash is a library the store imports, not
  part of the sources. \<open>throttle(func, wait)\<close> is \<open>debounce(func, wait)\<close> with
  \<open>maxWait = wait\<close>, invoking \<open>func\<close> on the leading and on the trailing edge of the
  wait, with the last arguments provided. The state is the one \<open>debounce\<close> keeps: the
  arguments of the last call not yet passed on, the time of the last call, the time of
  the last invocation, and the pending timeout, held as the time at which it fires.
  Times are values of \<open>Date.now()\<close>. A call on the socket is recorded as the pair of its
  time and its conversation id.
\<close>

record throttled =
  lastArgs :: "int option"
  lastCallTime :: "int option"
  lastInvokeTime :: int
  timerId :: "int option"

definition TYPING_WAIT :: int where
  "TYPING_WAIT = 5000"


text \<open>
  The wrapper called at \<open>time\<close> for a conversation (\<open>updateTypingStatus\<close>, the method as
  the constructor leaves it), and the callback of its timeout (\<open>timerExpired\<close>).
\<close>

definition shouldInvoke :: "throttled \<Rightarrow> int \<Rightarrow> bool" where
  "shouldInvoke th time =
     (case lastCallTime th of
        None \<Rightarrow> True
      | Some l \<Rightarrow>
          time - l \<ge> TYPING_WAIT \<or> time - l < 0 \<or> time - lastInvokeTime th \<ge> TYPING_WAIT)"

definition remainingWait :: "throttled \<Rightarrow> int \<Rightarrow> int" where
  "remainingWait th time =
     (case lastCallTime th of
        None \<Rightarrow> TYPING_WAIT - (time - lastInvokeTime th)
      | Some l \<Rightarrow>
          min (TYPING_WAIT - (time - l)) (TYPING_WAIT - (time - lastInvokeTime th)))"

definition invokeFunc :: "throttled \<Rightarrow> int \<Rightarrow> throttled \<times> (int \<times> int) list" where
  "invokeFunc th time =
     (th\<lparr>lastArgs := None, lastInvokeTime := time\<rparr>,
      case lastArgs th of None \<Rightarrow> [] | Some conversationId \<Rightarrow> [(time, conversationId)])"

definition updateTypingStatus :: "throttled \<Rightarrow> int \<Rightarrow> int \<Rightarrow> throttled \<times> (int \<times> int) list" where
  "updateTypingStatus th time conversationId =
     (let isInvoking = shouldInvoke th time;
          th1 = th\<lparr>lastArgs := Some conversationId, lastCallTime := Some time\<rparr>
      in if isInvoking
         then (case timerId th1 of
                 None \<Rightarrow>
                   invokeFunc (th1\<lparr>lastInvokeTime := time, timerId := Some (time + TYPING_WAIT)\<rparr>)
                     time
               | Some d \<Rightarrow> invokeFunc (th1\<lparr>timerId := Some (time + TYPING_WAIT)\<rparr>) time)
         else (case timerId th1 of
                 None \<Rightarrow> (th1\<lparr>timerId := Some (time + TYPING_WAIT)\<rparr>, [])
               | Some d \<Rightarrow> (th1, [])))"

definition timerExpired :: "throttled \<Rightarrow> int \<Rightarrow> throttled \<times> (int \<times> int) list" where
  "timerExpired th time =
     (if shouldInvoke th time
      then (case lastArgs th of
              None \<Rightarrow> (th\<lparr>timerId := None, lastArgs := None\<rparr>, [])
            | Some a \<Rightarrow> invokeFunc (th\<lparr>timerId := None\<rparr>) time)
      else (th\<lparr>timerId := Some (time + remainingWait th time)\<rparr>, []))"

text \<open>
  Time passes up to \<open>t\<close>: a pending timeout fires at the time it is due, and again if its
  callback sets it anew. Each firing is later than the one before, so this ends.
\<close>

function advance :: "throttled \<Rightarrow> int \<Rightarrow> throttled \<times> (int \<times> int) list" where
  "advance th t =
     (case timerId th of
        None \<Rightarrow> (th, [])
      | Some d \<Rightarrow>
          if d \<le> t
          then (fst (advance (fst (timerExpired th d)) t),
                snd (timerExpired th d) @ snd (advance (fst (timerExpired th d)) t))
          else (th, []))"
  by pat_completeness auto
termination
  by (relation "measure (\<lambda>(th, t). case timerId th of None \<Rightarrow> 0 | Some d \<Rightarrow> nat (t + 1 - d))")
    (auto simp: timerExpired_def shouldInvoke_def remainingWait_def invokeFunc_def
       TYPING_WAIT_def split: if_splits option.splits)

declare advance.simps [simp del]

text \<open>
  A sequence of calls, each with its time, on a limiter: before each call the timeouts due
  by then have fired. \<open>typing_calls cs t_end\<close> are the calls made on the socket up to
  \<open>t_end\<close> when the calls \<open>cs\<close> are made on the limiter of a new store.
\<close>

fun run :: "throttled \<Rightarrow> (int \<times> int) list \<Rightarrow> throttled \<times> (int \<times> int) list" where
  "run th [] = (th, [])"
| "run th ((t, conversationId) # cs) =
     (let r1 = advance th t;
          r2 = updateTypingStatus (fst r1) t conversationId;
          r3 = run (fst r2) cs
      in (fst r3, snd r1 @ snd r2 @ snd r3))"


subsection \<open>Inbound: \<open>Conversation.updateStatus\<close> and the quiet timer\<close>

text \<open>
  The constructor of \<open>Conversation\<close> replaces \<open>updateTypingStatusLazily\<close> by
  \<open>debounce(this.updateTypingStatusLazily, 6000)\<close>, one wrapper for each conversation.

  Modelled from the comment of \<open>updateTypingStatusLazily\<close> in the sources ("This method
  will be called only in 6s seconds. If it's called again the timer is reset.") and the
  lodash documentation of \<open>debounce\<close>: the wrapper is the time at which the method is
  due, kept with the conversation (\<open>quietTimer\<close>); a call of the wrapper at \<open>now\<close> sets
  it to \<open>now + 6000\<close>, and when that time is reached the method runs once and nothing is
  due any more.
\<close>

record liveConversation = conversation +
  quietTimer :: "nat option"

definition QUIET_WAIT :: nat where
  "QUIET_WAIT = 6000"

text \<open>
  \<open>Conversation.updateStatus\<close> at time \<open>now\<close>. \<open>None\<close> stands for an exception:
  \<open>extendObservable\<close> has no object to extend when the conversation has no status.
  Without \<open>typing\<close> the fields of the pushed status are copied.
\<close>

definition updateStatus ::
  "liveConversation \<Rightarrow> conversationStatus \<Rightarrow> bool \<Rightarrow> nat \<Rightarrow> liveConversation option" where
  "updateStatus c st typ now =
     (case status c of
        None \<Rightarrow> None
      | Some cur \<Rightarrow>
          if \<not> typ then Some (c\<lparr>status := Some st\<rparr>)
          else Some (c\<lparr>status := Some (cur\<lparr>typing := True, online := True,
                                          lastVisit := lastVisit st\<rparr>),
                       quietTimer := Some (now + QUIET_WAIT)\<rparr>))"

text \<open>\<open>Conversation.updateTypingStatusLazily\<close>, the method the timer runs.\<close>

definition updateTypingStatusLazily :: "liveConversation \<Rightarrow> liveConversation option" where
  "updateTypingStatusLazily c =
     (case status c of
        None \<Rightarrow> None
      | Some cur \<Rightarrow> Some (c\<lparr>status := Some (cur\<lparr>typing := False\<rparr>)\<rparr>))"

text \<open>
  The timer firing (an exception of the method is lost in the timer, the conversation
  stays as it was), time passing up to \<open>t\<close> for one conversation, and for all loaded
  conversations, each with its own timer.
\<close>

definition timer_fires :: "liveConversation \<Rightarrow> liveConversation" where
  "timer_fires c =
     (let c1 = c\<lparr>quietTimer := None\<rparr>
      in case updateTypingStatusLazily c1 of None \<Rightarrow> c1 | Some c2 \<Rightarrow> c2)"

definition elapse :: "liveConversation \<Rightarrow> nat \<Rightarrow> liveConversation" where
  "elapse c t =
     (case quietTimer c of
        None \<Rightarrow> c
      | Some d \<Rightarrow> if d \<le> t then timer_fires c else c)"

definition elapse_all :: "(int \<rightharpoonup> liveConversation) \<Rightarrow> nat \<Rightarrow> (int \<rightharpoonup> liveConversation)" where
  "elapse_all w t = (\<lambda>k. map_option (\<lambda>c. elapse c t) (w k))"

section \<open>Concrete stores\<close>

text \<open>Small stores and messages on which the operations are evaluated below.\<close>

definition ex_message :: "ident \<Rightarrow> int \<Rightarrow> bool \<Rightarrow> message" where
  "ex_message i k u =
     \<lparr>msg_id = i, msg_body = ''hello'', msg_conversation = Some k,
      msg_conversationId = None, msg_messengerUser = Some 2, msg_date = 900,
      msg_unread = u, msg_isSendingMessage = False\<rparr>"

definition ex_conversation :: "int \<Rightarrow> message list \<Rightarrow> bool \<Rightarrow> conversation" where
  "ex_conversation k ms fetched =
     \<lparr>conv_id = k, messages = ms, conv_type = ''conversation'', status = None,
      settings = Some \<lparr>notification = False\<rparr>, allMessagesFetched = fetched\<rparr>"

definition ex_info :: "int \<Rightarrow> string \<Rightarrow> int \<Rightarrow> conversationInfo" where
  "ex_info k ty n = \<lparr>info_id = k, info_name = ''name'', info_type = ty, unreadCount = n\<rparr>"

definition ex_roster :: messengerInfo where
  "ex_roster =
     \<lparr>mi_conversations = [ex_info 5 ''conversation'' 1, ex_info 6 ''conversation'' 0],
      groups = [ex_info 7 ''chat-group'' 0, ex_info 8 ''chat-group'' 2,
                ex_info 9 ''marketing-group'' 0],
      messengerUser = 1\<rparr>"

definition ex_store :: "(int \<rightharpoonup> conversation) \<Rightarrow> int option \<Rightarrow> store" where
  "ex_store cs sel =
     \<lparr>conversations = cs, messengerInfo = Some ex_roster, isLoading = False,
      selectedConversationId = sel, selectedMessages = [], messageForReply = None,
      messageForEdit = None, issued = []\<rparr>"

text \<open>
  What a run leaves: the messages of a conversation and the calls issued, if the run
  returned; and the next operation on the store a run leaves.
\<close>

definition messages_in :: "error + store \<Rightarrow> int \<Rightarrow> message list option" where
  "messages_in r k =
     (case r of Inl e \<Rightarrow> None | Inr s \<Rightarrow> map_option messages (conversations s k))"

definition issued_in :: "error + store \<Rightarrow> call list option" where
  "issued_in r = (case r of Inl e \<Rightarrow> None | Inr s \<Rightarrow> Some (issued s))"

definition and_then :: "error + store \<Rightarrow> (store \<Rightarrow> error + store) \<Rightarrow> error + store" where
  "and_then r f = (case r of Inl e \<Rightarrow> Inl e | Inr s \<Rightarrow> f s)"

text \<open>
  Conversations 5 and 6 loaded and empty, 5 selected, and a message sent to 6. Then
  conversation 5 alone: a message sent at time 1000; after it, the confirmation the
  server sends with its own id 42; or a second message sent in the same millisecond, and
  after the two a message that arrives with the id \<open>''1000''\<close>.
\<close>

definition ex_two :: store where
  "ex_two = ex_store [5 \<mapsto> ex_conversation 5 [] True, 6 \<mapsto> ex_conversation 6 [] True] (Some 5)"

definition ex_sent_other :: "error + store" where
  "ex_sent_other = sendMessage ex_two 6 ''hi'' [] 1000"

definition ex_one :: store where
  "ex_one = ex_store [5 \<mapsto> ex_conversation 5 [] True] (Some 5)"

definition ex_sent :: "error + store" where
  "ex_sent = sendMessage ex_one 5 ''hello'' [] 1000"

definition ex_confirmed :: "error + store" where
  "ex_confirmed = and_then ex_sent (\<lambda>s. updateMessage s (ex_message (NumId 42) 5 False))"

definition ex_sent_twice :: "error + store" where
  "ex_sent_twice = and_then ex_sent (\<lambda>s. sendMessage s 5 ''again'' [] 1000)"

definition ex_replaced :: "error + store" where
  "ex_replaced =
     and_then ex_sent_twice (\<lambda>s. updateMessage s (ex_message (StrId ''1000'') 5 False))"

text \<open>
  Conversations with a status: 5, with nobody typing and no timer, and 6, with typing
  shown and its timer due at 3000.
\<close>

definition ex_live :: "int \<Rightarrow> bool \<Rightarrow> nat option \<Rightarrow> liveConversation" where
  "ex_live k ty timer =
     \<lparr>conv_id = k, messages = [], conv_type = ''conversation'',
      status = Some \<lparr>online = False, typing = ty, lastVisit = ''yesterday''\<rparr>,
      settings = None, allMessagesFetched = True, quietTimer = timer\<rparr>"

definition ex_world :: "int \<rightharpoonup> liveConversation" where
  "ex_world = [5 \<mapsto> ex_live 5 False None, 6 \<mapsto> ex_live 6 True (Some 3000)]"

section \<open>Properties\<close>

subsection \<open>Auxiliary facts about lists\<close>

lemma find_None_filter: "find P xs = None \<Longrightarrow> filter (\<lambda>x. \<not> P x) xs = xs"
  by (induction xs) (auto split: if_splits)

lemma list_all_filter_self: "list_all P (filter P xs)"
  by (induction xs) auto

lemma find_append_case:
  "find P (xs @ ys) = (case find P xs of None \<Rightarrow> find P ys | Some x \<Rightarrow> Some x)"
  by (induction xs) auto

lemma find_update_first:
  "(\<And>x. P (f x) = P x) \<Longrightarrow> find P (update_first P f xs) = map_option f (find P xs)"
  by (induction xs) auto

lemma update_first_idem:
  "(\<And>x. P (f x) = P x) \<Longrightarrow> (\<And>x. f (f x) = f x) \<Longrightarrow>
     update_first P f (update_first P f xs) = update_first P f xs"
  by (induction xs) auto

lemma update_first_no_match: "find P xs = None \<Longrightarrow> update_first P f xs = xs"
  by (induction xs) (auto split: if_splits)

lemma byId_update_byId:
  assumes "\<And>e. info_id (f e) = info_id e"
  shows "byId (update_byId mi i f) i = map_option f (byId mi i)"
proof (cases "find (\<lambda>e. info_id e = i) (mi_conversations mi)")
  case None
  then show ?thesis
    using assms find_update_first [of "\<lambda>e. info_id e = i" f "groups mi"]
    by (simp add: byId_def update_byId_def find_append_case)
next
  case (Some a)
  then show ?thesis
    using assms find_update_first [of "\<lambda>e. info_id e = i" f "mi_conversations mi"]
    by (simp add: byId_def update_byId_def find_append_case)
qed

lemma update_byId_idem:
  assumes "\<And>e. info_id (f e) = info_id e" and "\<And>e. f (f e) = f e"
  shows "update_byId (update_byId mi i f) i f = update_byId mi i f"
proof (cases "find (\<lambda>e. info_id e = i) (mi_conversations mi)")
  case None
  then show ?thesis
    using assms update_first_idem [of "\<lambda>e. info_id e = i" f "groups mi"]
    by (simp add: update_byId_def)
next
  case (Some a)
  then show ?thesis
    using assms update_first_idem [of "\<lambda>e. info_id e = i" f "mi_conversations mi"]
      find_update_first [of "\<lambda>e. info_id e = i" f "mi_conversations mi"]
    by (simp add: update_byId_def)
qed

lemma getUnreadIds_cleared:
  "getUnreadIds (c\<lparr>messages := map (\<lambda>m. m\<lparr>msg_unread := False\<rparr>) (messages c)\<rparr>) = []"
  by (simp add: getUnreadIds_def filter_empty_conv)

lemma list_all_cleared:
  "list_all (\<lambda>m. \<not> msg_unread m) (map (\<lambda>m. m\<lparr>msg_unread := False\<rparr>) ms)"
  by (induction ms) auto

subsection \<open>Auxiliary facts about the operations\<close>

lemma findIndex_ge: "- 1 \<le> findIndex P xs"
  by (induction xs) (auto simp: Let_def)

lemma findIndex_none: "(findIndex P xs = - 1) = (\<not> list_ex P xs)"
proof (induction xs)
  case Nil
  then show ?case by simp
next
  case (Cons x xs)
  have "- 1 \<le> findIndex P xs" by (rule findIndex_ge)
  then have "findIndex P xs + 1 \<noteq> - 1" by arith
  with Cons show ?case by (simp add: Let_def)
qed

lemma findIndex_found:
  "findIndex P xs \<noteq> - 1 \<Longrightarrow>
     0 \<le> findIndex P xs \<and> nat (findIndex P xs) < length xs \<and> P (xs ! nat (findIndex P xs))
     \<and> (\<forall>j < nat (findIndex P xs). \<not> P (xs ! j))"
proof (induction xs)
  case Nil
  then show ?case by simp
next
  case (Cons x xs)
  show ?case
  proof (cases "P x")
    case True
    then show ?thesis by simp
  next
    case False
    with Cons.prems have ne: "findIndex P xs \<noteq> - 1"
      by (simp add: Let_def split: if_splits)
    from Cons.IH [OF ne] have ih: "0 \<le> findIndex P xs" "nat (findIndex P xs) < length xs"
      "P (xs ! nat (findIndex P xs))" "\<forall>j < nat (findIndex P xs). \<not> P (xs ! j)"
      by simp_all
    have eq: "findIndex P (x # xs) = findIndex P xs + 1"
      using False ne by (simp add: Let_def)
    have n: "nat (findIndex P xs + 1) = Suc (nat (findIndex P xs))"
      using ih(1) by simp
    have "\<forall>j < Suc (nat (findIndex P xs)). \<not> P ((x # xs) ! j)"
      using False ih(4) by (auto simp: less_Suc_eq_0_disj)
    then show ?thesis using ih by (simp add: eq n)
  qed
qed

lemma count_list_update:
  "n < length xs \<Longrightarrow> P (xs ! n) \<Longrightarrow> P y \<Longrightarrow>
     length (filter P (xs[n := y])) = length (filter P xs)"
proof (induction xs arbitrary: n)
  case Nil
  then show ?case by simp
next
  case (Cons x xs)
  then show ?case by (cases n) auto
qed

lemma Conversation_updateMessage_cases:
  assumes "msg_conversation m = Some (conv_id c)"
  shows "\<exists>c'. Conversation_updateMessage c m = Inr c'
     \<and> conv_id c' = conv_id c
     \<and> (if list_ex (\<lambda>x. msg_id x = msg_id m) (messages c)
         then (\<exists>n. n < length (messages c) \<and> msg_id (messages c ! n) = msg_id m
                 \<and> (\<forall>j < n. msg_id (messages c ! j) \<noteq> msg_id m)
                 \<and> messages c' = (messages c)[n := m])
              \<and> length (messages c') = length (messages c)
              \<and> length (filter (\<lambda>x. msg_id x = msg_id m) (messages c'))
                  = length (filter (\<lambda>x. msg_id x = msg_id m) (messages c))
         else messages c' = messages c @ [m]
              \<and> length (messages c') = length (messages c) + 1)"
proof (cases "list_ex (\<lambda>x. msg_id x = msg_id m) (messages c)")
  case True
  let ?P = "\<lambda>x. msg_id x = msg_id m"
  let ?n = "nat (findIndex ?P (messages c))"
  from True have ne: "findIndex ?P (messages c) \<noteq> - 1"
    by (simp add: findIndex_none)
  from findIndex_found [OF ne]
  have f: "?n < length (messages c)" "?P (messages c ! ?n)" "\<forall>j < ?n. \<not> ?P (messages c ! j)"
    by simp_all
  let ?c' = "c\<lparr>messages := (messages c)[?n := m]\<rparr>"
  have r: "Conversation_updateMessage c m = Inr ?c'"
    using assms ne by (simp add: Conversation_updateMessage_def Let_def)
  have cnt: "length (filter ?P (messages ?c')) = length (filter ?P (messages c))"
    using count_list_update [of ?n "messages c" ?P m] f by simp
  have "\<exists>n. n < length (messages c) \<and> msg_id (messages c ! n) = msg_id m
                 \<and> (\<forall>j < n. msg_id (messages c ! j) \<noteq> msg_id m)
                 \<and> messages ?c' = (messages c)[n := m]"
    using f by (intro exI [of _ ?n]) simp
  with r cnt True show ?thesis by simp
next
  case False
  then have "findIndex (\<lambda>x. msg_id x = msg_id m) (messages c) = - 1"
    by (simp add: findIndex_none)
  then have "Conversation_updateMessage c m = Inr (c\<lparr>messages := messages c @ [m]\<rparr>)"
    using assms by (simp add: Conversation_updateMessage_def Let_def)
  with False show ?thesis by simp
qed

lemma updateMessage_info_keeps:
  "updateMessage_info s k m = Inr s' \<Longrightarrow> conversations s' = conversations s"
  by (auto simp: updateMessage_info_def issue_def split: option.splits if_splits)

lemma updateMessage_info_returns:
  "messengerInfo s = Some mi \<Longrightarrow> \<exists>s'. updateMessage_info s k m = Inr s'"
  by (simp add: updateMessage_info_def split: option.splits)

lemma map_id_update_first:
  "(\<And>e. info_id (f e) = info_id e) \<Longrightarrow> map info_id (update_first P f xs) = map info_id xs"
  by (induction xs) auto

lemma update_byId_ids:
  assumes "\<And>e. info_id (f e) = info_id e"
  shows "map info_id (groups (update_byId mi i f)) = map info_id (groups mi)
     \<and> map info_id (mi_conversations (update_byId mi i f)) = map info_id (mi_conversations mi)"
  using assms by (simp add: update_byId_def map_id_update_first)

lemma markConversationAsRead_roster:
  assumes "markConversationAsRead s x = Inr s'" and "messengerInfo s = Some mi"
  shows "selectedConversationId s' = selectedConversationId s
     \<and> (\<exists>mi1. messengerInfo s' = Some mi1
          \<and> map info_id (groups mi1) = map info_id (groups mi)
          \<and> map info_id (mi_conversations mi1) = map info_id (mi_conversations mi))"
proof (cases x)
  case None
  with assms show ?thesis by simp
next
  case (Some i)
  show ?thesis
  proof (cases "i = 0")
    case True
    with Some assms show ?thesis by simp
  next
    case False
    with Some assms obtain c where c: "conversations s i = Some c"
      by (auto split: option.splits)
    let ?mi1 = "update_byId mi i (\<lambda>e. e\<lparr>unreadCount := 0\<rparr>)"
    have sel: "selectedConversationId s' = selectedConversationId s"
      using assms Some False c by (auto simp: Let_def issue_def split: if_splits)
    have "messengerInfo s' = Some ?mi1"
      using assms Some False c by (auto simp: Let_def issue_def split: if_splits)
    moreover have "map info_id (groups ?mi1) = map info_id (groups mi)
        \<and> map info_id (mi_conversations ?mi1) = map info_id (mi_conversations mi)"
      by (rule update_byId_ids) simp
    ultimately show ?thesis using sel by blast
  qed
qed

lemma setSelectedConversationId_selected:
  "selectedConversationId (fst (setSelectedConversationId s x)) = x"
proof (cases x)
  case None
  then show ?thesis by simp
next
  case (Some i)
  let ?s1 = "s\<lparr>selectedConversationId := Some i\<rparr>"
  show ?thesis
  proof (cases "conversations s i")
    case None
    then show ?thesis using Some
      by (auto simp: Let_def loadConversation_def issue_def split: option.splits sum.splits)
  next
    case (Some c)
    have k: "\<And>s2. markConversationAsRead ?s1 (Some i) = Inr s2 \<Longrightarrow>
        selectedConversationId s2 = Some i"
      using Some by (auto simp: Let_def issue_def split: if_splits option.splits)
    then show ?thesis using Some \<open>x = Some i\<close>
      by (auto simp: Let_def split: sum.splits)
  qed
qed

lemma setSelectedConversationId_roster:
  assumes "messengerInfo s = Some mi"
  shows "\<exists>mi1. messengerInfo (fst (setSelectedConversationId s x)) = Some mi1
          \<and> map info_id (groups mi1) = map info_id (groups mi)
          \<and> map info_id (mi_conversations mi1) = map info_id (mi_conversations mi)"
proof (cases x)
  case None
  with assms show ?thesis by simp
next
  case (Some i)
  let ?s1 = "s\<lparr>selectedConversationId := Some i\<rparr>"
  have m1: "messengerInfo ?s1 = Some mi" using assms by simp
  show ?thesis
  proof (cases "i = 0")
    case True
    with Some assms show ?thesis by simp
  next
    case False
    show ?thesis
    proof (cases "conversations s i")
      case None
      then show ?thesis using Some False assms
        by (simp add: Let_def loadConversation_def issue_def)
    next
      case (Some c)
      show ?thesis
      proof (cases "markConversationAsRead ?s1 (Some i)")
        case (Inl e)
        then show ?thesis using Some False \<open>x = Some i\<close> assms
          by (simp add: Let_def del: markConversationAsRead.simps)
      next
        case (Inr s2)
        from markConversationAsRead_roster [OF Inr m1]
        show ?thesis using Some False \<open>x = Some i\<close> Inr
          by (simp add: Let_def del: markConversationAsRead.simps)
      qed
    qed
  qed
qed

lemma findIndex_distinct:
  assumes "k < length gs" and "info_id (gs ! k) = g" and "distinct (map info_id gs)"
  shows "findIndex (\<lambda>e. info_id e = g) gs = int k"
proof -
  let ?P = "\<lambda>e. info_id e = g"
  have "gs ! k \<in> set gs" using assms(1) by simp
  then have "list_ex ?P gs" using assms(2) by (auto simp: list_ex_iff)
  then have ne: "findIndex ?P gs \<noteq> - 1" by (simp add: findIndex_none)
  from findIndex_found [OF ne]
  have f: "0 \<le> findIndex ?P gs" "nat (findIndex ?P gs) < length gs"
    "info_id (gs ! nat (findIndex ?P gs)) = g"
    by simp_all
  have "map info_id gs ! nat (findIndex ?P gs) = map info_id gs ! k"
    using f assms by simp
  moreover have "nat (findIndex ?P gs) < length (map info_id gs)" "k < length (map info_id gs)"
    using f(2) assms(1) by simp_all
  ultimately have "nat (findIndex ?P gs) = k"
    using assms(3) nth_eq_iff_index_eq [of "map info_id gs" "nat (findIndex ?P gs)" k]
    by blast
  with f(1) show ?thesis by simp
qed

lemma filter_ids:
  "map info_id (filter (\<lambda>e. info_id e \<noteq> g) xs) = filter (\<lambda>x. x \<noteq> g) (map info_id xs)"
  by (induction xs) auto

subsection \<open>Auxiliary facts about the timers\<close>





lemma elapse_twice: "t1 \<le> t2 \<Longrightarrow> elapse (elapse c t1) t2 = elapse c t2"
  by (auto simp: elapse_def timer_fires_def updateTypingStatusLazily_def Let_def
        split: option.splits)

subsection \<open>Deleting a message clears the selections that name it\<close>

text \<open>
  C10. For every message id, \<open>deleteMessage\<close> is the delete call on the socket issued on a
  store \<open>s3\<close> in which nothing has been issued yet and the clearings are done: the message
  for edit and the message for reply are cleared if they had that id and are kept
  otherwise, and the selected messages are exactly the earlier ones with another id, in
  their order. So no selection names the id any more, and the other entries are
  unchanged.
\<close>

theorem deleteMessage_clears_selection:
  "\<exists>s3. deleteMessage s messageId = issue (DeleteMessage messageId) s3
     \<and> issued s3 = issued s
     \<and> messageForEdit s3 = (if has_id messageId (messageForEdit s) then None else messageForEdit s)
     \<and> messageForReply s3 = (if has_id messageId (messageForReply s) then None else messageForReply s)
     \<and> selectedMessages s3 = filter (\<lambda>m. msg_id m \<noteq> messageId) (selectedMessages s)
     \<and> \<not> has_id messageId (messageForEdit s3)
     \<and> \<not> has_id messageId (messageForReply s3)
     \<and> list_all (\<lambda>m. msg_id m \<noteq> messageId) (selectedMessages s3)
     \<and> conversations s3 = conversations s \<and> messengerInfo s3 = messengerInfo s
     \<and> selectedConversationId s3 = selectedConversationId s \<and> isLoading s3 = isLoading s"
proof -
  define s1 where "s1 = (if has_id messageId (messageForEdit s)
                then s\<lparr>messageForEdit := None\<rparr> else s)"
  define s2 where "s2 = (if has_id messageId (messageForReply s1)
                then s1\<lparr>messageForReply := None\<rparr> else s1)"
  define s3 where "s3 = (if find (\<lambda>m. msg_id m = messageId) (selectedMessages s2) \<noteq> None
                then s2\<lparr>selectedMessages :=
                          filter (\<lambda>m. msg_id m \<noteq> messageId) (selectedMessages s2)\<rparr>
                else s2)"
  have d: "deleteMessage s messageId = issue (DeleteMessage messageId) s3"
    by (simp add: deleteMessage_def s1_def s2_def s3_def Let_def)
  have sel2: "selectedMessages s2 = selectedMessages s"
    by (simp add: s1_def s2_def)
  have sel: "selectedMessages s3 = filter (\<lambda>m. msg_id m \<noteq> messageId) (selectedMessages s)"
    using find_None_filter [of "\<lambda>m. msg_id m = messageId" "selectedMessages s2"]
    by (auto simp: s3_def sel2)
  have ed: "messageForEdit s3 = (if has_id messageId (messageForEdit s) then None else messageForEdit s)"
    by (simp add: s1_def s2_def s3_def)
  have re: "messageForReply s3 = (if has_id messageId (messageForReply s) then None else messageForReply s)"
    by (simp add: s1_def s2_def s3_def)
  have rest: "issued s3 = issued s \<and> conversations s3 = conversations s
     \<and> messengerInfo s3 = messengerInfo s
     \<and> selectedConversationId s3 = selectedConversationId s \<and> isLoading s3 = isLoading s"
    by (simp add: s1_def s2_def s3_def)
  have ned: "\<not> has_id messageId (messageForEdit s3)"
    by (simp add: ed) (simp add: has_id_def)
  have nre: "\<not> has_id messageId (messageForReply s3)"
    by (simp add: re) (simp add: has_id_def)
  have all: "list_all (\<lambda>m. msg_id m \<noteq> messageId) (selectedMessages s3)"
    by (simp only: sel list_all_filter_self)
  from d sel ed re rest ned nre all show ?thesis by blast
qed

subsection \<open>Marking a conversation as read\<close>

text \<open>
  C3, as amended. For every loaded conversation id other than 0, \<open>markConversationAsRead\<close>
  returns normally; in the store it leaves, every message of the conversation has
  \<open>unread = false\<close> (the ids and the order of the messages are unchanged), the roster
  entry of the conversation, if the roster is there and has one, has \<open>unreadCount = 0\<close>,
  and the mark-read call has been issued, once and with the unread ids, if and only if
  there was an unread id. A second run right after changes nothing and issues nothing.
\<close>

theorem markConversationAsRead_clears:
  assumes "i \<noteq> 0" and "conversations s i = Some c"
  shows "\<exists>s'. markConversationAsRead s (Some i) = Inr s'
     \<and> conversations s' = (conversations s)
          (i \<mapsto> c\<lparr>messages := map (\<lambda>m. m\<lparr>msg_unread := False\<rparr>) (messages c)\<rparr>)
     \<and> list_all (\<lambda>m. \<not> msg_unread m) (map (\<lambda>m. m\<lparr>msg_unread := False\<rparr>) (messages c))
     \<and> map msg_id (map (\<lambda>m. m\<lparr>msg_unread := False\<rparr>) (messages c)) = map msg_id (messages c)
     \<and> messengerInfo s' =
          map_option (\<lambda>mi. update_byId mi i (\<lambda>e. e\<lparr>unreadCount := 0\<rparr>)) (messengerInfo s)
     \<and> (case messengerInfo s' of
           None \<Rightarrow> True
         | Some mi' \<Rightarrow> (case byId mi' i of None \<Rightarrow> True | Some e \<Rightarrow> unreadCount e = 0))
     \<and> issued s' = issued s @
          (if getUnreadIds c \<noteq> [] then [UpdateMessagesReadStatus (getUnreadIds c)] else [])
     \<and> markConversationAsRead s' (Some i) = Inr s'"
proof -
  let ?c' = "c\<lparr>messages := map (\<lambda>m. m\<lparr>msg_unread := False\<rparr>) (messages c)\<rparr>"
  let ?z = "\<lambda>e::conversationInfo. e\<lparr>unreadCount := 0\<rparr>"
  define s1 where "s1 = s\<lparr>conversations := (conversations s)(i \<mapsto> ?c')\<rparr>"
  define s2 where "s2 = (case messengerInfo s1 of None \<Rightarrow> s1
     | Some mi \<Rightarrow> s1\<lparr>messengerInfo := Some (update_byId mi i ?z)\<rparr>)"
  define s' where "s' = (if getUnreadIds c \<noteq> [] then issue (UpdateMessagesReadStatus (getUnreadIds c)) s2
                   else s2)"
  have run: "markConversationAsRead s (Some i) = Inr s'"
    using assms by (simp add: s1_def s2_def s'_def Let_def split: option.splits)
  have cs: "conversations s' = (conversations s)(i \<mapsto> ?c')"
    by (simp add: s'_def s2_def s1_def issue_def split: option.splits)
  have mi: "messengerInfo s' = map_option (\<lambda>mi. update_byId mi i ?z) (messengerInfo s)"
    by (simp add: s'_def s2_def s1_def issue_def split: option.splits)
  have zero: "(case messengerInfo s' of None \<Rightarrow> True
         | Some mi' \<Rightarrow> (case byId mi' i of None \<Rightarrow> True | Some e \<Rightarrow> unreadCount e = 0))"
  proof (cases "messengerInfo s")
    case None
    then show ?thesis by (simp add: mi)
  next
    case (Some m)
    have "byId (update_byId m i ?z) i = map_option ?z (byId m i)"
      by (rule byId_update_byId) simp
    then show ?thesis using Some by (simp add: mi split: option.splits)
  qed
  have iss: "issued s' = issued s @
          (if getUnreadIds c \<noteq> [] then [UpdateMessagesReadStatus (getUnreadIds c)] else [])"
    by (simp add: s'_def s2_def s1_def issue_def split: option.splits)
  have ids: "map msg_id (map (\<lambda>m. m\<lparr>msg_unread := False\<rparr>) (messages c)) = map msg_id (messages c)"
    by simp
  have again: "markConversationAsRead s' (Some i) = Inr s'"
  proof -
    have g: "getUnreadIds ?c' = []" by (rule getUnreadIds_cleared)
    have c2: "?c'\<lparr>messages := map (\<lambda>m. m\<lparr>msg_unread := False\<rparr>) (messages ?c')\<rparr> = ?c'"
      by simp
    have m2: "(conversations s')(i \<mapsto> ?c') = conversations s'"
      by (simp add: cs)
    have u2: "\<And>m. update_byId (update_byId m i ?z) i ?z = update_byId m i ?z"
      by (rule update_byId_idem) simp_all
    have k: "conversations s' i = Some ?c'" by (simp add: cs)
    have comp: "msg_unread_update (\<lambda>_. False) \<circ> msg_unread_update (\<lambda>_. False)
        = (msg_unread_update (\<lambda>_. False) :: message \<Rightarrow> message)"
      by (rule ext) simp
    show ?thesis
    proof (cases "messengerInfo s")
      case None
      then have "messengerInfo s' = None" by (simp add: mi)
      then show ?thesis using assms(1) k g m2
        by (simp add: Let_def comp)
    next
      case (Some m)
      then have "messengerInfo s' = Some (update_byId m i ?z)" by (simp add: mi)
      then show ?thesis using assms(1) k g m2 u2 [of m]
        by (simp add: Let_def comp)
    qed
  qed
  from run cs mi zero iss ids again list_all_cleared [of "messages c"] show ?thesis
    by blast
qed

text \<open>The run on a conversation with one unread message, and the run after it.\<close>

theorem markConversationAsRead_clears_witness:
  "(5::int) \<noteq> 0
   \<and> conversations (ex_store [5 \<mapsto> ex_conversation 5 [ex_message (NumId 1) 5 True] True] None) 5
       = Some (ex_conversation 5 [ex_message (NumId 1) 5 True] True)
   \<and> (\<exists>s'. markConversationAsRead
             (ex_store [5 \<mapsto> ex_conversation 5 [ex_message (NumId 1) 5 True] True] None) (Some 5)
           = Inr s'
         \<and> conversations s' 5 = Some (ex_conversation 5 [ex_message (NumId 1) 5 False] True)
         \<and> issued s' = [UpdateMessagesReadStatus [NumId 1]]
         \<and> markConversationAsRead s' (Some 5) = Inr s')"
proof -
  let ?c = "ex_conversation 5 [ex_message (NumId 1) 5 True] True"
  let ?s = "ex_store [5 \<mapsto> ?c] None"
  have h1: "(5::int) \<noteq> 0" by simp
  have h2: "conversations ?s 5 = Some ?c" by (simp add: ex_store_def)
  have u: "getUnreadIds ?c = [NumId 1]"
    by (simp add: getUnreadIds_def ex_conversation_def ex_message_def)
  have c': "?c\<lparr>messages := map (\<lambda>m. m\<lparr>msg_unread := False\<rparr>) (messages ?c)\<rparr>
      = ex_conversation 5 [ex_message (NumId 1) 5 False] True"
    by (simp add: ex_conversation_def ex_message_def)
  have i: "issued ?s = []" by (simp add: ex_store_def)
  from markConversationAsRead_clears [OF h1 h2]
  obtain s' where "markConversationAsRead ?s (Some 5) = Inr s'"
    and "conversations s' = (conversations ?s)
          (5 \<mapsto> ?c\<lparr>messages := map (\<lambda>m. m\<lparr>msg_unread := False\<rparr>) (messages ?c)\<rparr>)"
    and "issued s' = issued ?s @
          (if getUnreadIds ?c \<noteq> [] then [UpdateMessagesReadStatus (getUnreadIds ?c)] else [])"
    and "markConversationAsRead s' (Some 5) = Inr s'"
    by blast
  then have "markConversationAsRead ?s (Some 5) = Inr s'
         \<and> conversations s' 5 = Some (ex_conversation 5 [ex_message (NumId 1) 5 False] True)
         \<and> issued s' = [UpdateMessagesReadStatus [NumId 1]]
         \<and> markConversationAsRead s' (Some 5) = Inr s'"
    by (simp add: u c' i)
  with h1 h2 show ?thesis by blast
qed

text \<open>
  C3 as stated, for every loaded id, fails at the id 0: the guard \<open>if (!id) return\<close>
  leaves a loaded conversation 0 with its unread message and issues nothing.
\<close>

theorem markConversationAsRead_id_zero_counterexample:
  "conversations (ex_store [0 \<mapsto> ex_conversation 0 [ex_message (NumId 1) 0 True] True] None) 0
       = Some (ex_conversation 0 [ex_message (NumId 1) 0 True] True)
   \<and> getUnreadIds (ex_conversation 0 [ex_message (NumId 1) 0 True] True) = [NumId 1]
   \<and> markConversationAsRead
         (ex_store [0 \<mapsto> ex_conversation 0 [ex_message (NumId 1) 0 True] True] None) (Some 0)
       = Inr (ex_store [0 \<mapsto> ex_conversation 0 [ex_message (NumId 1) 0 True] True] None)
   \<and> issued (ex_store [0 \<mapsto> ex_conversation 0 [ex_message (NumId 1) 0 True] True] None) = []"
  by (simp add: ex_store_def getUnreadIds_def ex_conversation_def ex_message_def)

text \<open>
  C9. The conversation is dereferenced (\<open>conversation.getUnreadIds()\<close>) before the test
  \<open>if (conversation)\<close>: for the truthy id 5, not loaded, the operation throws.
\<close>

theorem markConversationAsRead_not_loaded_throws:
  "conversations (ex_store Map.empty (Some 5)) 5 = None
   \<and> markConversationAsRead (ex_store Map.empty (Some 5)) (Some 5) = Inl TypeError"
  by (simp add: ex_store_def)

subsection \<open>Pagination\<close>

text \<open>
  C4. \<open>loadOlderMessages\<close> leaves the store as it is, and issues nothing, when the
  conversation is not loaded, when it is loaded with \<open>allMessagesFetched\<close>, and when
  \<open>isLoading\<close> holds; otherwise it is \<open>loadConversation\<close> with the limit "number of
  messages of the conversation plus 30", which, the roster being there, issues the
  request for the conversation with that limit.
\<close>

theorem loadOlderMessages_noop_or_reload:
  "(conversations s i = None \<longrightarrow> loadOlderMessages s i = Inr s)
   \<and> (\<forall>c. conversations s i = Some c \<and> allMessagesFetched c \<longrightarrow> loadOlderMessages s i = Inr s)
   \<and> (isLoading s \<longrightarrow> loadOlderMessages s i = Inr s)
   \<and> (\<forall>c. conversations s i = Some c \<and> \<not> allMessagesFetched c \<and> \<not> isLoading s \<longrightarrow>
         loadOlderMessages s i = loadConversation s i (int (length (messages c)) + 30)
         \<and> (\<forall>mi. messengerInfo s = Some mi \<longrightarrow>
               loadOlderMessages s i =
                 Inr (issue (GetConversation i (getConversationType mi i)
                              (int (length (messages c)) + 30)) s)))"
  by (auto simp: loadOlderMessages_def loadConversation_def MSGS_REQUEST_LIMIT_def
           split: option.splits)

text \<open>The three no-op cases and the reload of a conversation with one message, limit 31.\<close>

theorem loadOlderMessages_noop_or_reload_witness:
  "loadOlderMessages (ex_store Map.empty None) 5 = Inr (ex_store Map.empty None)
   \<and> loadOlderMessages (ex_store [5 \<mapsto> ex_conversation 5 [ex_message (NumId 1) 5 False] True] None) 5
       = Inr (ex_store [5 \<mapsto> ex_conversation 5 [ex_message (NumId 1) 5 False] True] None)
   \<and> loadOlderMessages ((ex_store [5 \<mapsto> ex_conversation 5 [] False] None)\<lparr>isLoading := True\<rparr>) 5
       = Inr ((ex_store [5 \<mapsto> ex_conversation 5 [] False] None)\<lparr>isLoading := True\<rparr>)
   \<and> loadOlderMessages (ex_store [5 \<mapsto> ex_conversation 5 [ex_message (NumId 1) 5 False] False] None) 5
       = Inr (issue (GetConversation 5 ''conversation'' 31)
               (ex_store [5 \<mapsto> ex_conversation 5 [ex_message (NumId 1) 5 False] False] None))"
proof -
  let ?c1 = "ex_conversation 5 [ex_message (NumId 1) 5 False] True"
  let ?c2 = "ex_conversation 5 [] False"
  let ?c3 = "ex_conversation 5 [ex_message (NumId 1) 5 False] False"
  have a: "conversations (ex_store Map.empty None) 5 = None"
    by (simp add: ex_store_def)
  have b: "conversations (ex_store [5 \<mapsto> ?c1] None) 5 = Some ?c1 \<and> allMessagesFetched ?c1"
    by (simp add: ex_store_def ex_conversation_def)
  have c: "isLoading ((ex_store [5 \<mapsto> ?c2] None)\<lparr>isLoading := True\<rparr>)"
    by simp
  have d: "conversations (ex_store [5 \<mapsto> ?c3] None) 5 = Some ?c3 \<and> \<not> allMessagesFetched ?c3
      \<and> \<not> isLoading (ex_store [5 \<mapsto> ?c3] None)"
    by (simp add: ex_store_def ex_conversation_def)
  have e: "messengerInfo (ex_store [5 \<mapsto> ?c3] None) = Some ex_roster"
    by (simp add: ex_store_def)
  have t: "getConversationType ex_roster 5 = ''conversation''"
    by (simp add: getConversationType_def byId_def ex_roster_def ex_info_def)
  have l: "int (length (messages ?c3)) + 30 = 31"
    by (simp add: ex_conversation_def)
  from a loadOlderMessages_noop_or_reload [of "ex_store Map.empty None" 5]
  have 1: "loadOlderMessages (ex_store Map.empty None) 5 = Inr (ex_store Map.empty None)"
    by blast
  from b loadOlderMessages_noop_or_reload [of "ex_store [5 \<mapsto> ?c1] None" 5]
  have 2: "loadOlderMessages (ex_store [5 \<mapsto> ?c1] None) 5 = Inr (ex_store [5 \<mapsto> ?c1] None)"
    by blast
  from c loadOlderMessages_noop_or_reload [of "(ex_store [5 \<mapsto> ?c2] None)\<lparr>isLoading := True\<rparr>" 5]
  have 3: "loadOlderMessages ((ex_store [5 \<mapsto> ?c2] None)\<lparr>isLoading := True\<rparr>) 5
       = Inr ((ex_store [5 \<mapsto> ?c2] None)\<lparr>isLoading := True\<rparr>)"
    by blast
  from d e loadOlderMessages_noop_or_reload [of "ex_store [5 \<mapsto> ?c3] None" 5]
  have "loadOlderMessages (ex_store [5 \<mapsto> ?c3] None) 5 =
      Inr (issue (GetConversation 5 (getConversationType ex_roster 5)
                              (int (length (messages ?c3)) + 30)) (ex_store [5 \<mapsto> ?c3] None))"
    by blast
  then have 4: "loadOlderMessages (ex_store [5 \<mapsto> ?c3] None) 5 =
      Inr (issue (GetConversation 5 ''conversation'' 31) (ex_store [5 \<mapsto> ?c3] None))"
    by (simp only: t l)
  from 1 2 3 4 show ?thesis by blast
qed

text \<open>
  C5. The scenario of the specification: conversation 5 loaded with limit 30, and 12
  messages returned. The conversation the callback builds has the 12 messages and
  \<open>allMessagesFetched = true\<close> (and with 30 messages returned the flag is false), but the
  callback throws at \<open>setConversationSettings\<close>, which class \<open>Conversation\<close> does not
  define: the conversation is not inserted into the map.
\<close>

theorem loadConversation_success_throws:
  "loadConversation_success (ex_store Map.empty None) 5 30
      \<lparr>d_id = 5, d_messages = Some (replicate 12 (ex_message (NumId 1) 5 False)),
       d_type = ''conversation'', d_status = None\<rparr> \<lparr>notification = True\<rparr>
     = Inl TypeError
   \<and> allMessagesFetched (loadConversation_built
        \<lparr>d_id = 5, d_messages = Some (replicate 12 (ex_message (NumId 1) 5 False)),
         d_type = ''conversation'', d_status = None\<rparr> 30)
   \<and> length (messages (loadConversation_built
        \<lparr>d_id = 5, d_messages = Some (replicate 12 (ex_message (NumId 1) 5 False)),
         d_type = ''conversation'', d_status = None\<rparr> 30)) = 12
   \<and> \<not> allMessagesFetched (loadConversation_built
        \<lparr>d_id = 5, d_messages = Some (replicate 30 (ex_message (NumId 1) 5 False)),
         d_type = ''conversation'', d_status = None\<rparr> 30)"
  by (simp add: loadConversation_success_def loadConversation_built_def new_Conversation_def
        Conversation_members_def Let_def)

subsection \<open>Sending and reconciliation\<close>

text \<open>
  C1, as amended. For every call of \<open>sendMessage\<close> made while the roster is there and a
  loaded conversation is selected, the result is the send call, carrying the given
  conversation id and body, issued on a store \<open>s1\<close> in which the message list of the
  selected conversation has grown by exactly one entry, at its end: the temporary
  message, with \<open>isSendingMessage = true\<close>, the id \<open>String(Date.now())\<close> and the selected
  conversation's id as its \<open>conversationId\<close>. The other conversations are unchanged, and
  before the send call nothing but the sound cue has been issued.
\<close>

theorem sendMessage_appends_to_selected:
  assumes "messengerInfo s = Some mi" and "selectedConversationId s = Some k"
    and "conversations s k = Some c"
  shows "\<exists>s1. sendMessage s conversationId body channelSetId now =
            Inr (issue (SendMessage \<lparr>opt_conversationId = conversationId, opt_body = body,
                          opt_channelSetId = channelSetId,
                          opt_replyToId = map_option msg_id (messageForReply s)\<rparr>) s1)
     \<and> conversations s1 =
         (conversations s)(k \<mapsto> c\<lparr>messages := messages c @ [sendingMessage s mi body now]\<rparr>)
     \<and> length (messages c @ [sendingMessage s mi body now]) = length (messages c) + 1
     \<and> msg_isSendingMessage (sendingMessage s mi body now)
     \<and> msg_id (sendingMessage s mi body now) = StrId (string_of_nat now)
     \<and> msg_body (sendingMessage s mi body now) = body
     \<and> msg_conversationId (sendingMessage s mi body now) = Some k
     \<and> issued s1 = issued s @ (if notifies c then [PlayMsgSent] else [])
     \<and> messageForReply s1 = None"
proof -
  let ?t = "sendingMessage s mi body now"
  let ?c' = "c\<lparr>messages := messages c @ [?t]\<rparr>"
  define sa where "sa = s\<lparr>conversations := (conversations s)(k \<mapsto> ?c')\<rparr>"
  define sb where "sb = sa\<lparr>messageForReply := None\<rparr>"
  define s1 where "s1 = (if notifies ?c' then issue PlayMsgSent sb else sb)"
  have add: "addSendingMessage s body now = Inr sa"
    using assms by (simp add: addSendingMessage_def sa_def)
  have sel: "selectedConversation sb = Some ?c'"
    using assms(2) by (simp add: selectedConversation_def sb_def sa_def)
  have rep: "messageForReply sa = messageForReply s" by (simp add: sa_def)
  have run: "sendMessage s conversationId body channelSetId now =
            Inr (issue (SendMessage \<lparr>opt_conversationId = conversationId, opt_body = body,
                          opt_channelSetId = channelSetId,
                          opt_replyToId = map_option msg_id (messageForReply s)\<rparr>) s1)"
    using sel by (simp add: sendMessage_def add Let_def rep s1_def sb_def [symmetric])
  have n: "notifies ?c' = notifies c" by (simp add: notifies_def)
  have cs: "conversations s1 = (conversations s)(k \<mapsto> ?c')"
    by (simp add: s1_def sb_def sa_def issue_def)
  have iss: "issued s1 = issued s @ (if notifies c then [PlayMsgSent] else [])"
    by (simp add: s1_def n sb_def sa_def issue_def)
  have r: "messageForReply s1 = None"
    by (simp add: s1_def sb_def issue_def)
  have t: "msg_isSendingMessage ?t \<and> msg_id ?t = StrId (string_of_nat now) \<and> msg_body ?t = body
      \<and> msg_conversationId ?t = Some k"
    using assms(2) by (simp add: sendingMessage_def)
  from run cs iss r t show ?thesis by auto
qed

text \<open>Sending to the selected conversation 5 at time 1000.\<close>

theorem sendMessage_appends_to_selected_witness:
  "messengerInfo (ex_store [5 \<mapsto> ex_conversation 5 [] True] (Some 5)) = Some ex_roster
   \<and> selectedConversationId (ex_store [5 \<mapsto> ex_conversation 5 [] True] (Some 5)) = Some 5
   \<and> conversations (ex_store [5 \<mapsto> ex_conversation 5 [] True] (Some 5)) 5
       = Some (ex_conversation 5 [] True)
   \<and> (\<exists>s1. sendMessage (ex_store [5 \<mapsto> ex_conversation 5 [] True] (Some 5)) 5 ''hi'' [] 1000
            = Inr (issue (SendMessage \<lparr>opt_conversationId = 5, opt_body = ''hi'',
                            opt_channelSetId = [], opt_replyToId = None\<rparr>) s1)
         \<and> map_option (map msg_id \<circ> messages) (conversations s1 5) = Some [StrId ''1000'']
         \<and> issued s1 = [])"
proof -
  let ?c = "ex_conversation 5 [] True"
  let ?s = "ex_store [5 \<mapsto> ?c] (Some 5)"
  have h1: "messengerInfo ?s = Some ex_roster" by (simp add: ex_store_def)
  have h2: "selectedConversationId ?s = Some 5" by (simp add: ex_store_def)
  have h3: "conversations ?s 5 = Some ?c" by (simp add: ex_store_def)
  have e: "messageForReply ?s = None" "issued ?s = []" "\<not> notifies ?c" "messages ?c = []"
    by (simp_all add: ex_store_def notifies_def ex_conversation_def)
  have n: "string_of_nat 1000 = ''1000''" by (simp add: string_of_nat.simps digit_char_def)
  from sendMessage_appends_to_selected [OF h1 h2 h3, of 5 "''hi''" "[]" 1000]
  obtain s1 where "sendMessage ?s 5 ''hi'' [] 1000
            = Inr (issue (SendMessage \<lparr>opt_conversationId = 5, opt_body = ''hi'',
                            opt_channelSetId = [],
                            opt_replyToId = map_option msg_id (messageForReply ?s)\<rparr>) s1)"
    and "conversations s1 = (conversations ?s)
           (5 \<mapsto> ?c\<lparr>messages := messages ?c @ [sendingMessage ?s ex_roster ''hi'' 1000]\<rparr>)"
    and "msg_id (sendingMessage ?s ex_roster ''hi'' 1000) = StrId (string_of_nat 1000)"
    and "issued s1 = issued ?s @ (if notifies ?c then [PlayMsgSent] else [])"
    by blast
  then have "sendMessage ?s 5 ''hi'' [] 1000
            = Inr (issue (SendMessage \<lparr>opt_conversationId = 5, opt_body = ''hi'',
                            opt_channelSetId = [], opt_replyToId = None\<rparr>) s1)
         \<and> map_option (map msg_id \<circ> messages) (conversations s1 5) = Some [StrId ''1000'']
         \<and> issued s1 = []"
    by (simp add: e n)
  with h1 h2 h3 show ?thesis by blast
qed

text \<open>
  C1 as stated, for the conversation identified by \<open>conversationId\<close>, fails when that
  conversation is not the selected one: with 5 selected, \<open>sendMessage(6, ...)\<close> leaves the
  list of conversation 6 empty and appends to conversation 5, while the call goes out
  for conversation 6.
\<close>

theorem sendMessage_other_conversation_counterexample:
  "map_option length (messages_in (Inr ex_two) 6) = Some 0
   \<and> selectedConversationId ex_two = Some 5
   \<and> map_option length (messages_in ex_sent_other 6) = Some 0
   \<and> map_option length (messages_in ex_sent_other 5) = Some 1
   \<and> issued_in ex_sent_other =
       Some [SendMessage \<lparr>opt_conversationId = 6, opt_body = ''hi'',
                          opt_channelSetId = [], opt_replyToId = None\<rparr>]"
  by (simp add: messages_in_def issued_in_def ex_sent_other_def ex_two_def
        sendMessage_def addSendingMessage_def selectedConversation_def
        notifies_def issue_def ex_store_def ex_conversation_def Let_def)

text \<open>
  C2, as amended. \<open>updateMessage\<close> matches by id only. For a message of a loaded
  conversation (the roster being there), if some entry of the conversation has the id
  of the message, the first such entry is replaced in place: the length of the list and
  the number of entries with that id are unchanged. If no entry has that id, the message
  is appended and the list grows by one.
\<close>

theorem updateMessage_replaces_by_id:
  assumes "msg_conversation m = Some k" and "conversations s k = Some c"
    and "conv_id c = k" and "messengerInfo s = Some mi"
  shows "\<exists>s' c'. updateMessage s m = Inr s'
     \<and> Conversation_updateMessage c m = Inr c'
     \<and> conversations s' = (conversations s)(k \<mapsto> c')
     \<and> (if list_ex (\<lambda>x. msg_id x = msg_id m) (messages c)
         then (\<exists>n. n < length (messages c) \<and> msg_id (messages c ! n) = msg_id m
                 \<and> (\<forall>j < n. msg_id (messages c ! j) \<noteq> msg_id m)
                 \<and> messages c' = (messages c)[n := m])
              \<and> length (messages c') = length (messages c)
              \<and> length (filter (\<lambda>x. msg_id x = msg_id m) (messages c'))
                  = length (filter (\<lambda>x. msg_id x = msg_id m) (messages c))
         else messages c' = messages c @ [m]
              \<and> length (messages c') = length (messages c) + 1)"
proof -
  from assms(1,3) have "msg_conversation m = Some (conv_id c)" by simp
  from Conversation_updateMessage_cases [OF this]
  obtain c' where c': "Conversation_updateMessage c m = Inr c'"
    and shape: "(if list_ex (\<lambda>x. msg_id x = msg_id m) (messages c)
         then (\<exists>n. n < length (messages c) \<and> msg_id (messages c ! n) = msg_id m
                 \<and> (\<forall>j < n. msg_id (messages c ! j) \<noteq> msg_id m)
                 \<and> messages c' = (messages c)[n := m])
              \<and> length (messages c') = length (messages c)
              \<and> length (filter (\<lambda>x. msg_id x = msg_id m) (messages c'))
                  = length (filter (\<lambda>x. msg_id x = msg_id m) (messages c))
         else messages c' = messages c @ [m]
              \<and> length (messages c') = length (messages c) + 1)"
    by blast
  let ?s1 = "s\<lparr>conversations := (conversations s)(k \<mapsto> c')\<rparr>"
  have "messengerInfo ?s1 = Some mi" using assms(4) by simp
  from updateMessage_info_returns [OF this]
  obtain s' where s': "updateMessage_info ?s1 k m = Inr s'" by blast
  have run: "updateMessage s m = Inr s'"
    using assms(1,2) c' s' by (simp add: updateMessage_def)
  have "conversations s' = (conversations s)(k \<mapsto> c')"
    using updateMessage_info_keeps [OF s'] by simp
  with run c' shape show ?thesis by blast
qed

text \<open>A message arriving with the id of the second entry replaces it.\<close>

theorem updateMessage_replaces_by_id_witness:
  "msg_conversation (ex_message (StrId ''1000'') 5 False) = Some 5
   \<and> conversations (ex_store [5 \<mapsto> ex_conversation 5
          [ex_message (NumId 1) 5 False, (ex_message (StrId ''1000'') 5 False)\<lparr>msg_isSendingMessage := True\<rparr>] True] None) 5
       = Some (ex_conversation 5
          [ex_message (NumId 1) 5 False, (ex_message (StrId ''1000'') 5 False)\<lparr>msg_isSendingMessage := True\<rparr>] True)
   \<and> (\<exists>s'. updateMessage (ex_store [5 \<mapsto> ex_conversation 5
          [ex_message (NumId 1) 5 False, (ex_message (StrId ''1000'') 5 False)\<lparr>msg_isSendingMessage := True\<rparr>] True] None)
          (ex_message (StrId ''1000'') 5 False) = Inr s'
        \<and> map_option messages (conversations s' 5)
            = Some [ex_message (NumId 1) 5 False, ex_message (StrId ''1000'') 5 False])"
proof -
  let ?m = "ex_message (StrId ''1000'') 5 False"
  let ?t = "?m\<lparr>msg_isSendingMessage := True\<rparr>"
  let ?c = "ex_conversation 5 [ex_message (NumId 1) 5 False, ?t] True"
  let ?s = "ex_store [5 \<mapsto> ?c] None"
  have h1: "msg_conversation ?m = Some 5" by (simp add: ex_message_def)
  have h2: "conversations ?s 5 = Some ?c" by (simp add: ex_store_def)
  have h3: "conv_id ?c = 5" by (simp add: ex_conversation_def)
  have h4: "messengerInfo ?s = Some ex_roster" by (simp add: ex_store_def)
  have ev: "Conversation_updateMessage ?c ?m
      = Inr (ex_conversation 5 [ex_message (NumId 1) 5 False, ?m] True)"
    by (simp add: Conversation_updateMessage_def ex_conversation_def ex_message_def Let_def)
  from updateMessage_replaces_by_id [OF h1 h2 h3 h4]
  obtain s' c' where run: "updateMessage ?s ?m = Inr s'"
    and cu: "Conversation_updateMessage ?c ?m = Inr c'"
    and cs: "conversations s' = (conversations ?s)(5 \<mapsto> c')"
    by blast
  from cu ev have "c' = ex_conversation 5 [ex_message (NumId 1) 5 False, ?m] True"
    by simp
  then have "messages c' = [ex_message (NumId 1) 5 False, ?m]"
    by (simp add: ex_conversation_def)
  with cs have "map_option messages (conversations s' 5)
            = Some [ex_message (NumId 1) 5 False, ?m]"
    by simp
  with run h1 h2 show ?thesis by blast
qed

text \<open>
  C2 as stated fails: the options of the send call do not carry the temporary id, and the
  confirmation comes with the id the server assigned. After \<open>sendMessage\<close> at time 1000
  into the empty conversation 5, the confirmed message with id 42 is appended: the list
  has two entries, and the temporary one is still there. And where the id does match:
  after a second \<open>sendMessage\<close> within the same millisecond the list holds two temporary
  entries with the id \<open>''1000''\<close>; a message arriving with that id replaces the first,
  and the second is left, an entry with the same id that is still being sent.
\<close>

theorem confirmation_appended_counterexample:
  "map_option (map msg_id) (messages_in ex_sent 5) = Some [StrId ''1000'']
   \<and> map_option (map msg_isSendingMessage) (messages_in ex_sent 5) = Some [True]
   \<and> map_option (map msg_id) (messages_in ex_confirmed 5) = Some [StrId ''1000'', NumId 42]
   \<and> map_option (map msg_isSendingMessage) (messages_in ex_confirmed 5) = Some [True, False]
   \<and> map_option (map msg_id) (messages_in ex_sent_twice 5)
       = Some [StrId ''1000'', StrId ''1000'']
   \<and> map_option (map msg_id) (messages_in ex_replaced 5)
       = Some [StrId ''1000'', StrId ''1000'']
   \<and> map_option (map msg_isSendingMessage) (messages_in ex_replaced 5) = Some [False, True]"
proof -
  have sent: "messages_in ex_sent 5 =
      Some [sendingMessage ex_one ex_roster ''hello'' 1000]"
    by (simp add: messages_in_def ex_sent_def ex_one_def sendMessage_def addSendingMessage_def
          selectedConversation_def notifies_def issue_def ex_store_def ex_conversation_def
          Let_def)
  have conf: "messages_in ex_confirmed 5 =
      Some [sendingMessage ex_one ex_roster ''hello'' 1000, ex_message (NumId 42) 5 False]"
    by (simp add: messages_in_def ex_confirmed_def and_then_def ex_sent_def ex_one_def
          sendMessage_def addSendingMessage_def sendingMessage_def selectedConversation_def
          notifies_def issue_def updateMessage_def updateMessage_info_def
          Conversation_updateMessage_def byId_def update_byId_def
          ex_store_def ex_conversation_def ex_message_def ex_roster_def ex_info_def Let_def)
  have twice: "map_option (map msg_id) (messages_in ex_sent_twice 5) =
      Some [StrId (string_of_nat 1000), StrId (string_of_nat 1000)]"
    by (simp add: messages_in_def ex_sent_twice_def and_then_def ex_sent_def ex_one_def
          sendMessage_def addSendingMessage_def sendingMessage_def selectedConversation_def
          notifies_def issue_def ex_store_def ex_conversation_def Let_def)
  have n: "string_of_nat 1000 = ''1000''"
    by (simp add: string_of_nat.simps digit_char_def)
  have repl: "map_option (map msg_id) (messages_in ex_replaced 5)
        = Some [StrId ''1000'', StrId ''1000'']
      \<and> map_option (map msg_isSendingMessage) (messages_in ex_replaced 5) = Some [False, True]"
    by (simp add: messages_in_def ex_replaced_def ex_sent_twice_def and_then_def ex_sent_def
          ex_one_def sendMessage_def addSendingMessage_def sendingMessage_def
          selectedConversation_def notifies_def issue_def updateMessage_def
          updateMessage_info_def Conversation_updateMessage_def byId_def update_byId_def
          ex_store_def ex_conversation_def ex_message_def ex_roster_def ex_info_def n Let_def)
  show ?thesis
    using repl by (simp add: sent conf twice n) (simp add: sendingMessage_def ex_message_def n)
qed

subsection \<open>Deleting a group\<close>

text \<open>
  C6. Let the roster hold the group \<open>groupId\<close> at index \<open>k\<close> of its groups, whose ids are
  distinct. Then the success callback of \<open>deleteGroup\<close> returns normally; the groups of
  the roster are the earlier ones without \<open>groupId\<close>, in their order, and the
  conversation summaries are the earlier ones; the selection is cleared if the group was
  the only one (and no group remains), and otherwise it is the group at index \<open>k - 1\<close> if
  \<open>0 < k\<close> and the group at index \<open>k + 1\<close> if \<open>k = 0\<close>, which is a group that remains. The
  callback does so whether or not the deleted group was the selected one.
\<close>

theorem deleteGroup_success_removes_and_reselects:
  assumes "messengerInfo s = Some mi" and "k < length (groups mi)"
    and "info_id (groups mi ! k) = groupId" and "distinct (map info_id (groups mi))"
  shows "\<exists>s' mi'. deleteGroup_success s groupId = Inr s' \<and> messengerInfo s' = Some mi'
     \<and> map info_id (groups mi') = filter (\<lambda>x. x \<noteq> groupId) (map info_id (groups mi))
     \<and> groupId \<notin> set (map info_id (groups mi'))
     \<and> map info_id (mi_conversations mi') = map info_id (mi_conversations mi)
     \<and> selectedConversationId s' =
         (if length (groups mi) = 1 then None
          else if 0 < k then Some (info_id (groups mi ! (k - 1)))
          else Some (info_id (groups mi ! (k + 1))))
     \<and> (length (groups mi) = 1 \<longrightarrow> groups mi' = [])
     \<and> (1 < length (groups mi) \<longrightarrow>
          (\<exists>x. selectedConversationId s' = Some x \<and> x \<in> set (map info_id (groups mi'))))"
proof -
  let ?gs = "groups mi"
  let ?ids = "map info_id ?gs"
  have idx: "findIndex (\<lambda>e. info_id e = groupId) ?gs = int k"
    using assms(2,3,4) by (rule findIndex_distinct)
  define newIndex where "newIndex = newIndex_of (int k) (length ?gs)"
  define target where "target =
     (if newIndex \<noteq> - 1 then Some (info_id (?gs ! nat newIndex)) else None)"
  define s1 where "s1 = fst (setSelectedConversationId s target)"
  have len: "1 \<le> length ?gs" using assms(2) by simp
  have ni: "newIndex = (if length ?gs = 1 then - 1 else if 0 < k then int k - 1 else 1)"
    using assms(2) by (auto simp: newIndex_def newIndex_of_def)
  have range: "newIndex \<noteq> - 1 \<Longrightarrow> 0 \<le> newIndex \<and> nat newIndex < length ?gs"
    using assms(2) len by (auto simp: ni split: if_splits)
  have tgt: "target =
         (if length ?gs = 1 then None
          else if 0 < k then Some (info_id (?gs ! (k - 1)))
          else Some (info_id (?gs ! (k + 1))))"
    by (auto simp: target_def ni nat_diff_distrib)
  have sel: "selectedConversationId s1 = target"
    unfolding s1_def by (rule setSelectedConversationId_selected)
  from setSelectedConversationId_roster [OF assms(1), of target]
  obtain mi1 where mi1: "messengerInfo s1 = Some mi1"
    and g1: "map info_id (groups mi1) = ?ids"
    and c1: "map info_id (mi_conversations mi1) = map info_id (mi_conversations mi)"
    unfolding s1_def by blast
  define mi' where "mi' = mi1\<lparr>groups := filter (\<lambda>g. info_id g \<noteq> groupId) (groups mi1)\<rparr>"
  define s' where "s' = s1\<lparr>messengerInfo := Some mi'\<rparr>"
  have run: "deleteGroup_success s groupId = Inr s'"
  proof -
    have ok: "\<not> (newIndex \<noteq> - 1 \<and> \<not> (0 \<le> newIndex \<and> nat newIndex < length ?gs))"
      using range by blast
    have "deleteGroup_success s groupId =
        Inr (s1\<lparr>messengerInfo := map_option
               (\<lambda>m. m\<lparr>groups := filter (\<lambda>g. info_id g \<noteq> groupId) (groups m)\<rparr>)
               (messengerInfo s1)\<rparr>)"
      using assms(1) ok
      by (simp add: deleteGroup_success_def Let_def idx s1_def target_def newIndex_def
            del: setSelectedConversationId.simps)
    then show ?thesis by (simp add: mi1 s'_def mi'_def)
  qed
  have m': "messengerInfo s' = Some mi'" by (simp add: s'_def)
  have ids': "map info_id (groups mi') = filter (\<lambda>x. x \<noteq> groupId) ?ids"
    by (simp add: mi'_def filter_ids g1)
  have gone: "groupId \<notin> set (map info_id (groups mi'))"
    by (simp only: ids') simp
  have cv: "map info_id (mi_conversations mi') = map info_id (mi_conversations mi)"
    by (simp add: mi'_def c1)
  have sel': "selectedConversationId s' =
         (if length ?gs = 1 then None
          else if 0 < k then Some (info_id (?gs ! (k - 1)))
          else Some (info_id (?gs ! (k + 1))))"
    by (simp add: s'_def sel tgt)
  have single: "length ?gs = 1 \<longrightarrow> groups mi' = []"
  proof
    assume l: "length ?gs = 1"
    then have "k = 0" using assms(2) by simp
    with l assms(3) have "?ids = [groupId]"
      by (cases ?gs) simp_all
    then have "map info_id (groups mi') = []" by (simp add: ids')
    then show "groups mi' = []" by simp
  qed
  have many: "1 < length ?gs \<longrightarrow>
          (\<exists>x. selectedConversationId s' = Some x \<and> x \<in> set (map info_id (groups mi')))"
  proof
    assume l: "1 < length ?gs"
    define j where "j = (if 0 < k then k - 1 else k + 1)"
    have j: "j < length ?gs" "j \<noteq> k" using l assms(2) by (auto simp: j_def)
    have sj: "selectedConversationId s' = Some (info_id (?gs ! j))"
      using l by (simp add: sel' j_def)
    have "j < length ?ids" "k < length ?ids" using j(1) assms(2) by simp_all
    then have "?ids ! j \<noteq> ?ids ! k"
      using j(2) assms(4) nth_eq_iff_index_eq [of ?ids j k] by blast
    then have "info_id (?gs ! j) \<noteq> groupId" using j(1) assms(2,3) by simp
    moreover have "info_id (?gs ! j) \<in> set ?ids" using j(1) by simp
    ultimately have "info_id (?gs ! j) \<in> set (map info_id (groups mi'))"
      by (simp only: ids') simp
    with sj show "\<exists>x. selectedConversationId s' = Some x \<and> x \<in> set (map info_id (groups mi'))"
      by blast
  qed
  from run m' ids' gone cv sel' single many show ?thesis by blast
qed

text \<open>
  Deleting the middle group 8 of the groups 7, 8, 9 selects 7; deleting the only group 7
  clears the selection and leaves no group.
\<close>

theorem deleteGroup_success_removes_and_reselects_witness:
  "messengerInfo (ex_store Map.empty (Some 8)) = Some ex_roster
   \<and> (1::nat) < length (groups ex_roster)
   \<and> info_id (groups ex_roster ! 1) = 8
   \<and> distinct (map info_id (groups ex_roster))
   \<and> (\<exists>s'. deleteGroup_success (ex_store Map.empty (Some 8)) 8 = Inr s'
         \<and> selectedConversationId s' = Some 7
         \<and> map_option (map info_id \<circ> groups) (messengerInfo s') = Some [7, 9])
   \<and> (\<exists>s'. deleteGroup_success
               ((ex_store Map.empty (Some 7))
                  \<lparr>messengerInfo := Some (ex_roster\<lparr>groups := [ex_info 7 ''chat-group'' 0]\<rparr>)\<rparr>) 7
             = Inr s'
         \<and> selectedConversationId s' = None
         \<and> map_option groups (messengerInfo s') = Some [])"
proof -
  let ?s = "ex_store Map.empty (Some 8)"
  have h1: "messengerInfo ?s = Some ex_roster" by (simp add: ex_store_def)
  have h2: "(1::nat) < length (groups ex_roster)" by (simp add: ex_roster_def)
  have h3: "info_id (groups ex_roster ! 1) = 8" by (simp add: ex_roster_def ex_info_def)
  have h4: "distinct (map info_id (groups ex_roster))" by (simp add: ex_roster_def ex_info_def)
  have ids: "map info_id (groups ex_roster) = [7, 8, 9]" by (simp add: ex_roster_def ex_info_def)
  from deleteGroup_success_removes_and_reselects [OF h1 h2 h3 h4]
  obtain s' mi' where r: "deleteGroup_success ?s 8 = Inr s'" "messengerInfo s' = Some mi'"
    "map info_id (groups mi') = filter (\<lambda>x. x \<noteq> 8) (map info_id (groups ex_roster))"
    "selectedConversationId s' =
         (if length (groups ex_roster) = 1 then None
          else if 0 < (1::nat) then Some (info_id (groups ex_roster ! (1 - 1)))
          else Some (info_id (groups ex_roster ! (1 + 1))))"
    by blast
  have "selectedConversationId s' = Some 7"
    using r(4) by (simp add: ex_roster_def ex_info_def)
  moreover have "map_option (map info_id \<circ> groups) (messengerInfo s') = Some [7, 9]"
    using r(2,3) by (simp add: ids)
  ultimately have a: "\<exists>s'. deleteGroup_success ?s 8 = Inr s'
         \<and> selectedConversationId s' = Some 7
         \<and> map_option (map info_id \<circ> groups) (messengerInfo s') = Some [7, 9]"
    using r(1) by blast
  let ?mi = "ex_roster\<lparr>groups := [ex_info 7 ''chat-group'' 0]\<rparr>"
  let ?t = "(ex_store Map.empty (Some 7))\<lparr>messengerInfo := Some ?mi\<rparr>"
  have g1: "messengerInfo ?t = Some ?mi" by simp
  have g2: "0 < length (groups ?mi)" by simp
  have g3: "info_id (groups ?mi ! 0) = 7" by (simp add: ex_info_def)
  have g4: "distinct (map info_id (groups ?mi))" by simp
  from deleteGroup_success_removes_and_reselects [OF g1 g2 g3 g4]
  obtain t' mj where q: "deleteGroup_success ?t 7 = Inr t'" "messengerInfo t' = Some mj"
    "selectedConversationId t' =
         (if length (groups ?mi) = 1 then None
          else if 0 < (0::nat) then Some (info_id (groups ?mi ! (0 - 1)))
          else Some (info_id (groups ?mi ! (0 + 1))))"
    "length (groups ?mi) = 1 \<longrightarrow> groups mj = []"
    by blast
  have "selectedConversationId t' = None" using q(3) by simp
  moreover have "map_option groups (messengerInfo t') = Some []" using q(2,4) by simp
  ultimately have b: "\<exists>s'. deleteGroup_success ?t 7 = Inr s'
         \<and> selectedConversationId s' = None
         \<and> map_option groups (messengerInfo s') = Some []"
    using q(1) by blast
  from h1 h2 h3 h4 a b show ?thesis by blast
qed

subsection \<open>Typing status\<close>




text \<open>
  C8. For every loaded conversation that has a status, a typing push applied at time
  \<open>now\<close> returns normally, sets \<open>typing\<close> and \<open>online\<close> to true and takes \<open>lastVisit\<close> from
  the push, and sets the quiet timer of the conversation to \<open>now + 6000\<close>, whatever it was
  before. With nothing else applied, \<open>typing\<close> is true at every time before
  \<open>now + 6000\<close> and false from then on, \<open>online\<close> stays true, the timer is pending before
  that time and gone from then on, and letting time pass in two steps is letting it
  pass in one: the flag goes from true to false once. In the map of loaded
  conversations the entry of the conversation follows its own timer, and every other
  entry is at every time what it is without the push.
\<close>

theorem updateStatus_typing_quiet_timer:
  assumes "w k = Some c" and "status c = Some cur"
  shows "\<exists>c'. updateStatus c st True now = Some c'
     \<and> status c' = Some (cur\<lparr>typing := True, online := True, lastVisit := lastVisit st\<rparr>)
     \<and> quietTimer c' = Some (now + 6000)
     \<and> (\<forall>t. map_option typing (status (elapse c' t)) = Some (t < now + 6000))
     \<and> (\<forall>t. map_option online (status (elapse c' t)) = Some True)
     \<and> (\<forall>t. quietTimer (elapse c' t) = (if t < now + 6000 then Some (now + 6000) else None))
     \<and> (\<forall>t1 t2. t1 \<le> t2 \<longrightarrow> elapse (elapse c' t1) t2 = elapse c' t2)
     \<and> (\<forall>t. elapse_all (w(k \<mapsto> c')) t k = Some (elapse c' t))
     \<and> (\<forall>t j. j \<noteq> k \<longrightarrow> elapse_all (w(k \<mapsto> c')) t j = elapse_all w t j)"
proof -
  let ?st' = "cur\<lparr>typing := True, online := True, lastVisit := lastVisit st\<rparr>"
  let ?c' = "c\<lparr>status := Some ?st', quietTimer := Some (now + QUIET_WAIT)\<rparr>"
  have run: "updateStatus c st True now = Some ?c'"
    using assms(2) by (simp add: updateStatus_def)
  have s: "status ?c' = Some ?st'" by simp
  have q: "quietTimer ?c' = Some (now + 6000)" by (simp add: QUIET_WAIT_def)
  have ty: "\<forall>t. map_option typing (status (elapse ?c' t)) = Some (t < now + 6000)"
    by (auto simp: elapse_def timer_fires_def updateTypingStatusLazily_def QUIET_WAIT_def Let_def)
  have on: "\<forall>t. map_option online (status (elapse ?c' t)) = Some True"
    by (auto simp: elapse_def timer_fires_def updateTypingStatusLazily_def Let_def)
  have tm: "\<forall>t. quietTimer (elapse ?c' t) = (if t < now + 6000 then Some (now + 6000) else None)"
    by (auto simp: elapse_def timer_fires_def updateTypingStatusLazily_def QUIET_WAIT_def Let_def)
  have tw: "\<forall>t1 t2. t1 \<le> t2 \<longrightarrow> elapse (elapse ?c' t1) t2 = elapse ?c' t2"
    using elapse_twice by blast
  have own: "\<forall>t. elapse_all (w(k \<mapsto> ?c')) t k = Some (elapse ?c' t)"
    by (simp add: elapse_all_def)
  have other: "\<forall>t j. j \<noteq> k \<longrightarrow> elapse_all (w(k \<mapsto> ?c')) t j = elapse_all w t j"
    by (simp add: elapse_all_def)
  from run s q ty on tm tw own other show ?thesis by blast
qed

text \<open>
  A push to conversation 5 at time 1000: typing until 6999, cleared at 7000, while
  conversation 6 is cleared by its own timer at 3000.
\<close>

theorem updateStatus_typing_quiet_timer_witness:
  "ex_world 5 = Some (ex_live 5 False None)
   \<and> status (ex_live 5 False None)
       = Some \<lparr>online = False, typing = False, lastVisit = ''yesterday''\<rparr>
   \<and> (\<exists>c'. updateStatus (ex_live 5 False None)
               \<lparr>online = True, typing = True, lastVisit = ''now''\<rparr> True 1000 = Some c'
         \<and> status c' = Some \<lparr>online = True, typing = True, lastVisit = ''now''\<rparr>
         \<and> quietTimer c' = Some 7000
         \<and> map_option typing (status (elapse c' 6999)) = Some True
         \<and> map_option typing (status (elapse c' 7000)) = Some False
         \<and> elapse_all (ex_world(5 \<mapsto> c')) 2999 6
             = Some (ex_live 6 True (Some 3000))
         \<and> elapse_all (ex_world(5 \<mapsto> c')) 3000 6
             = Some (ex_live 6 False None))"
proof -
  let ?w = "ex_world"
  let ?cur = "\<lparr>online = False, typing = False, lastVisit = ''yesterday''\<rparr>"
  let ?st = "\<lparr>online = True, typing = True, lastVisit = ''now''\<rparr>"
  have h1: "?w 5 = Some (ex_live 5 False None)" by (simp add: ex_world_def)
  have h2: "status (ex_live 5 False None) = Some ?cur" by (simp add: ex_live_def)
  have e1: "elapse_all ?w 2999 6 = Some (ex_live 6 True (Some 3000))"
    by (simp add: ex_world_def elapse_all_def elapse_def ex_live_def)
  have e2: "elapse_all ?w 3000 6 = Some (ex_live 6 False None)"
    by (simp add: ex_world_def elapse_all_def elapse_def timer_fires_def
          updateTypingStatusLazily_def ex_live_def Let_def)
  from updateStatus_typing_quiet_timer [where w = ex_world and k = 5 and st = ?st and now = 1000,
      OF h1 h2]
  obtain c' where r: "updateStatus (ex_live 5 False None) ?st True 1000 = Some c'"
    and s: "status c' = Some (?cur\<lparr>typing := True, online := True, lastVisit := lastVisit ?st\<rparr>)"
    and q: "quietTimer c' = Some (1000 + 6000)"
    and ty: "\<forall>t. map_option typing (status (elapse c' t)) = Some (t < 1000 + 6000)"
    and other: "\<forall>t j. j \<noteq> 5 \<longrightarrow> elapse_all (?w(5 \<mapsto> c')) t j = elapse_all ?w t j"
    by blast
  have s': "status c' = Some ?st" using s by simp
  have q': "quietTimer c' = Some 7000" using q by simp
  have t1: "map_option typing (status (elapse c' 6999)) = Some True"
    using ty [rule_format, of 6999] by simp
  have t2: "map_option typing (status (elapse c' 7000)) = Some False"
    using ty [rule_format, of 7000] by simp
  have o1: "elapse_all (?w(5 \<mapsto> c')) 2999 6 = Some (ex_live 6 True (Some 3000))"
    using other [rule_format, of 6 2999] e1 by simp
  have o2: "elapse_all (?w(5 \<mapsto> c')) 3000 6 = Some (ex_live 6 False None)"
    using other [rule_format, of 6 3000] e2 by simp
  from h1 h2 r s' q' t1 t2 o1 o2 show ?thesis by blast
qed

end
